theory Spec2Isabelle
  imports Main
begin

section \<open>Python values and built-ins used by the parsers\<close>

text \<open>
  Python strings are modelled as HOL strings, one \<^typ>\<open>char\<close> per code point, so the
  model covers the texts whose code points are below 256. In that range the characters
  that \<^verbatim>\<open>str.strip()\<close> removes are 0x09-0x0D, 0x1C-0x20, 0x85 and 0xA0, and the decimal
  digits are the ASCII digits.

  Every exception the source can raise is a value of \<open>error\<close>; a computation that may
  raise returns \<open>error + 'a\<close>, with \<open>Inl\<close> for the exception.
\<close>

datatype error =
    ValueError string
  | TypeError
  | AttributeError
  | IndexError
  | OverflowError
  | FileNotFoundError string
  | SystemExit int
  | OtherError string

text \<open>\<^verbatim>\<open>except Exception\<close> catches everything but \<^verbatim>\<open>SystemExit\<close>.\<close>

fun is_Exception :: "error \<Rightarrow> bool" where
  "is_Exception (SystemExit _) = False"
| "is_Exception _ = True"

fun is_ValueError :: "error \<Rightarrow> bool" where
  "is_ValueError (ValueError _) = True"
| "is_ValueError _ = False"

definition code_point :: "char \<Rightarrow> nat" where
  "code_point c = of_char c"

text \<open>The characters for which \<^verbatim>\<open>str.isspace()\<close> holds; \<^verbatim>\<open>str.strip()\<close> removes them.\<close>

definition is_space :: "char \<Rightarrow> bool" where
  "is_space c =
     (let n = code_point c
      in (9 \<le> n \<and> n \<le> 13) \<or> (28 \<le> n \<and> n \<le> 32) \<or> n = 133 \<or> n = 160)"

definition strip :: "string \<Rightarrow> string" where
  "strip s = rev (dropWhile is_space (rev (dropWhile is_space s)))"

text \<open>
  \<^verbatim>\<open>int(s)\<close> for a string, base 10: surrounding whitespace (here without 0x1C-0x1F,
  which \<^verbatim>\<open>int\<close> rejects), an optional sign, then digits with single underscores allowed
  between them. \<open>lim\<close> is the interpreter's limit on the number of digits
  (\<^verbatim>\<open>sys.get_int_max_str_digits()\<close>: 4300 by default from Python 3.11 on, 0 when there
  is no limit); a longer literal raises \<^verbatim>\<open>ValueError\<close> as a malformed one does.
\<close>

definition int_space :: "char \<Rightarrow> bool" where
  "int_space c =
     (let n = code_point c
      in (9 \<le> n \<and> n \<le> 13) \<or> n = 32 \<or> n = 133 \<or> n = 160)"

definition is_digit :: "char \<Rightarrow> bool" where
  "is_digit c = (let n = code_point c in 48 \<le> n \<and> n \<le> 57)"

definition digit_value :: "char \<Rightarrow> int" where
  "digit_value c = int (code_point c) - 48"

fun int_digits :: "string \<Rightarrow> string option" where
  "int_digits [] = None"
| "int_digits [c] = (if is_digit c then Some [c] else None)"
| "int_digits (c # d # cs) =
     (if \<not> is_digit c then None
      else if d = CHR ''_'' then map_option ((#) c) (int_digits cs)
      else map_option ((#) c) (int_digits (d # cs)))"

definition decimal_value :: "string \<Rightarrow> int" where
  "decimal_value ds = foldl (\<lambda>a c. 10 * a + digit_value c) 0 ds"

definition invalid_literal :: error where
  "invalid_literal = ValueError ''invalid literal for int() with base 10''"

definition digit_limit_exceeded :: error where
  "digit_limit_exceeded = ValueError ''Exceeds the limit for integer string conversion''"

definition signed_digits :: "nat \<Rightarrow> bool \<Rightarrow> string \<Rightarrow> error + int" where
  "signed_digits lim neg body =
     (case int_digits body of
        None \<Rightarrow> Inl invalid_literal
      | Some ds \<Rightarrow>
          if 0 < lim \<and> lim < length ds then Inl digit_limit_exceeded
          else Inr (if neg then - decimal_value ds else decimal_value ds))"

definition py_int :: "nat \<Rightarrow> string \<Rightarrow> error + int" where
  "py_int lim s =
     (case rev (dropWhile int_space (rev (dropWhile int_space s))) of
        [] \<Rightarrow> Inl invalid_literal
      | c # r \<Rightarrow>
          if c = CHR ''-'' then signed_digits lim True r
          else if c = CHR ''+'' then signed_digits lim False r
          else signed_digits lim False (c # r))"

text \<open>
  A table cell is a string or \<^verbatim>\<open>None\<close>. \<^verbatim>\<open>None\<close> and the empty string are falsy;
  \<^verbatim>\<open>int(None)\<close> raises \<^verbatim>\<open>TypeError\<close> and \<^verbatim>\<open>None.strip()\<close> raises \<^verbatim>\<open>AttributeError\<close>.
\<close>

type_synonym cell = "string option"
type_synonym grid = "cell list list"

fun truthy :: "cell \<Rightarrow> bool" where
  "truthy None = False"
| "truthy (Some s) = (s \<noteq> [])"

fun int_of_cell :: "nat \<Rightarrow> cell \<Rightarrow> error + int" where
  "int_of_cell lim None = Inl TypeError"
| "int_of_cell lim (Some s) = py_int lim s"

fun strip_cell :: "cell \<Rightarrow> error + string" where
  "strip_cell None = Inl AttributeError"
| "strip_cell (Some s) = Inr (strip s)"

text \<open>\<^verbatim>\<open>xs[i]\<close> for a non-negative index: \<^verbatim>\<open>IndexError\<close> out of range.\<close>

definition index :: "'a list \<Rightarrow> nat \<Rightarrow> error + 'a" where
  "index xs i = (if i < length xs then Inr (xs ! i) else Inl IndexError)"

section \<open>Vote records\<close>

record vote =
  name :: string
  votes :: int

section \<open>table\_parser.py\<close>

text \<open>
  \<open>cn\<close> is the constant \<^verbatim>\<open>CANDIDATE_NAMES\<close> of the module \<^verbatim>\<open>constants\<close>, taken as a
  parameter: the sequence of the registry's names.

  \<open>row_has_name_and_votes\<close> is the condition
  \<^verbatim>\<open>len(row) >= 3 and row[1] and row[2]\<close>, evaluated left to right.
\<close>

definition row_has_name_and_votes :: "cell list \<Rightarrow> error + bool" where
  "row_has_name_and_votes row =
     (if \<not> 3 \<le> length row then Inr False
      else (case index row 1 of
              Inl e \<Rightarrow> Inl e
            | Inr c1 \<Rightarrow>
                if \<not> truthy c1 then Inr False
                else (case index row 2 of
                        Inl e \<Rightarrow> Inl e
                      | Inr c2 \<Rightarrow> Inr (truthy c2))))"

text \<open>The body of the \<^verbatim>\<open>try\<close> block: the records to append, or the exception raised.\<close>

definition try_row :: "nat \<Rightarrow> string list \<Rightarrow> cell list \<Rightarrow> error + vote list" where
  "try_row lim cn row =
     (case index row 2 of
        Inl e \<Rightarrow> Inl e
      | Inr c2 \<Rightarrow>
          (case int_of_cell lim c2 of
             Inl e \<Rightarrow> Inl e
           | Inr v \<Rightarrow>
               (case index row 1 of
                  Inl e \<Rightarrow> Inl e
                | Inr c1 \<Rightarrow>
                    (case strip_cell c1 of
                       Inl e \<Rightarrow> Inl e
                     | Inr n \<Rightarrow>
                         if n \<in> set cn then Inr [\<lparr>name = n, votes = v\<rparr>] else Inr []))))"

text \<open>
  One iteration of the loop over the list \<^verbatim>\<open>candidates\<close> built so far (\<open>acc\<close>):
  \<^verbatim>\<open>except ValueError: continue\<close> catches only \<^verbatim>\<open>ValueError\<close>.
\<close>

definition row_step :: "nat \<Rightarrow> string list \<Rightarrow> cell list \<Rightarrow> vote list \<Rightarrow> error + vote list" where
  "row_step lim cn row acc =
     (case row_has_name_and_votes row of
        Inl e \<Rightarrow> Inl e
      | Inr False \<Rightarrow> Inr acc
      | Inr True \<Rightarrow>
          (case try_row lim cn row of
             Inl e \<Rightarrow> if is_ValueError e then Inr acc else Inl e
           | Inr new \<Rightarrow> Inr (acc @ new)))"

fun table_loop :: "nat \<Rightarrow> string list \<Rightarrow> grid \<Rightarrow> vote list \<Rightarrow> error + vote list" where
  "table_loop lim cn [] acc = Inr acc"
| "table_loop lim cn (row # rows) acc =
     (case row_step lim cn row acc of
        Inl e \<Rightarrow> Inl e
      | Inr acc' \<Rightarrow> table_loop lim cn rows acc')"

definition parse_table_votes :: "nat \<Rightarrow> string list \<Rightarrow> grid \<Rightarrow> error + vote list" where
  "parse_table_votes lim cn table_data =
     (if table_data = [] \<or> length table_data < 2 then Inr []
      else table_loop lim cn (tl table_data) [])"

text \<open>
  The name and votes cells of a row with at least three cells decide what the row
  contributes; \<open>row_votes\<close> and \<open>row_contribution\<close> say so as plain functions, for the
  statements about the loop.
\<close>

definition row_votes :: "nat \<Rightarrow> string list \<Rightarrow> cell \<Rightarrow> cell \<Rightarrow> vote list" where
  "row_votes lim cn c1 c2 =
     (case c1 of
        None \<Rightarrow> []
      | Some n \<Rightarrow>
          (case c2 of
             None \<Rightarrow> []
           | Some s \<Rightarrow>
               if n = [] \<or> s = [] then []
               else (case py_int lim s of
                       Inl e \<Rightarrow> []
                     | Inr v \<Rightarrow>
                         if strip n \<in> set cn then [\<lparr>name = strip n, votes = v\<rparr>] else [])))"

definition row_contribution :: "nat \<Rightarrow> string list \<Rightarrow> cell list \<Rightarrow> vote list" where
  "row_contribution lim cn row =
     (if 3 \<le> length row then row_votes lim cn (row ! 1) (row ! 2) else [])"

text \<open>
  A malformed row: fewer than three cells, an empty name or votes cell, or a votes cell
  that \<^verbatim>\<open>int\<close> rejects.
\<close>

definition malformed_row :: "nat \<Rightarrow> cell list \<Rightarrow> bool" where
  "malformed_row lim row =
     (if 3 \<le> length row
      then (if truthy (row ! 1) \<and> truthy (row ! 2) then isl (int_of_cell lim (row ! 2)) else True)
      else True)"

section \<open>vote\_parser.py\<close>

text \<open>
  \<open>findall\<close> stands for \<^verbatim>\<open>re.findall(pattern, text)\<close> of the standard library with the
  source's pattern: the list of the (name, digits) group pairs of the matches, in order.
  The loop strips the name, converts the digits, and keeps the pair when the name is in
  the registry and the number is not negative; \<^verbatim>\<open>int\<close> is not guarded here, so its
  \<^verbatim>\<open>ValueError\<close> leaves the function.
\<close>

fun candidate_loop ::
  "nat \<Rightarrow> string list \<Rightarrow> (string \<times> string) list \<Rightarrow> vote list \<Rightarrow> error + vote list" where
  "candidate_loop lim cn [] results = Inr results"
| "candidate_loop lim cn ((n, v) # matches) results =
     (let n' = strip n
      in (case py_int lim v of
            Inl e \<Rightarrow> Inl e
          | Inr k \<Rightarrow>
              candidate_loop lim cn matches
                (if n' \<in> set cn \<and> 0 \<le> k then results @ [\<lparr>name = n', votes = k\<rparr>]
                 else results)))"

definition parse_candidate_votes ::
  "(string \<Rightarrow> (string \<times> string) list) \<Rightarrow> nat \<Rightarrow> string list \<Rightarrow> string \<Rightarrow> error + vote list" where
  "parse_candidate_votes findall lim cn text = candidate_loop lim cn (findall text) []"

text \<open>
  \<^verbatim>\<open>str(i)\<close> as an f-string writes it: the decimal digits, with the interpreter's
  digit limit (\<^verbatim>\<open>ValueError\<close> beyond it).
\<close>

definition digit_char :: "nat \<Rightarrow> char" where
  "digit_char d = char_of (48 + d)"

fun digits_of :: "nat \<Rightarrow> string" where
  "digits_of n = (if n < 10 then [digit_char n] else digits_of (n div 10) @ [digit_char (n mod 10)])"

declare digits_of.simps [simp del]

definition py_str :: "nat \<Rightarrow> int \<Rightarrow> error + string" where
  "py_str lim i =
     (let ds = digits_of (nat \<bar>i\<bar>)
      in if 0 < lim \<and> lim < length ds then Inl digit_limit_exceeded
         else Inr (if i < 0 then CHR ''-'' # ds else ds))"

text \<open>
  \<open>format_results\<close>: one line \<^verbatim>\<open>"{i} {name} {votes}"\<close> per record, numbered from 1,
  joined by newlines.
\<close>

fun format_lines :: "nat \<Rightarrow> int \<Rightarrow> vote list \<Rightarrow> error + string list" where
  "format_lines lim i [] = Inr []"
| "format_lines lim i (r # rs) =
     (case py_str lim i of
        Inl e \<Rightarrow> Inl e
      | Inr si \<Rightarrow>
          (case py_str lim (votes r) of
             Inl e \<Rightarrow> Inl e
           | Inr sv \<Rightarrow>
               (case format_lines lim (i + 1) rs of
                  Inl e \<Rightarrow> Inl e
                | Inr ls \<Rightarrow> Inr ((si @ '' '' @ name r @ '' '' @ sv) # ls))))"

fun join :: "string \<Rightarrow> string list \<Rightarrow> string" where
  "join sep [] = []"
| "join sep [x] = x"
| "join sep (x # y # ys) = x @ sep @ join sep (y # ys)"

definition format_results :: "nat \<Rightarrow> vote list \<Rightarrow> error + string" where
  "format_results lim results =
     (case format_lines lim 1 results of
        Inl e \<Rightarrow> Inl e
      | Inr ls \<Rightarrow> Inr (join [CHR 0x0A] ls))"

text \<open>
  \<open>compare_vote_results\<close>. A Python dict keeps its keys in insertion order, and
  assigning to a key that is present replaces its value in place: an association list
  with \<open>dict_set\<close>. \<^verbatim>\<open>d.get(k)\<close> is \<^const>\<open>map_of\<close>, \<^verbatim>\<open>d.items()\<close> the list itself.
\<close>

type_synonym vote_dict = "(string \<times> int) list"

fun dict_set :: "vote_dict \<Rightarrow> string \<Rightarrow> int \<Rightarrow> vote_dict" where
  "dict_set [] k v = [(k, v)]"
| "dict_set ((k', v') # d) k v = (if k' = k then (k, v) # d else (k', v') # dict_set d k v)"

definition dict_of_votes :: "vote list \<Rightarrow> vote_dict" where
  "dict_of_votes vs = foldl (\<lambda>d r. dict_set d (name r) (votes r)) [] vs"

definition dict_keys :: "vote_dict \<Rightarrow> string list" where
  "dict_keys d = map fst d"

text \<open>
  An entry of \<^verbatim>\<open>differences\<close>; \<open>dname\<close> is its key \<^verbatim>\<open>"name"\<close>, and \<^verbatim>\<open>None\<close> is the
  absent value.
\<close>

record difference =
  dname :: string
  text_votes :: "int option"
  ocr_votes :: "int option"

record comparison =
  all_match :: bool
  differences :: "difference list"

definition record_difference :: "difference \<Rightarrow> comparison \<Rightarrow> comparison" where
  "record_difference d st = \<lparr>all_match = False, differences = differences st @ [d]\<rparr>"

text \<open>The loop over \<^verbatim>\<open>CANDIDATE_NAMES\<close>.\<close>

fun registry_pass :: "vote_dict \<Rightarrow> vote_dict \<Rightarrow> string list \<Rightarrow> comparison \<Rightarrow> comparison" where
  "registry_pass text_dict ocr_dict [] st = st"
| "registry_pass text_dict ocr_dict (n # ns) st =
     (let tv = map_of text_dict n; ov = map_of ocr_dict n
      in registry_pass text_dict ocr_dict ns
           (if tv = None \<or> ov = None
            then record_difference \<lparr>dname = n, text_votes = tv, ocr_votes = ov\<rparr> st
            else if tv \<noteq> ov
            then record_difference \<lparr>dname = n, text_votes = tv, ocr_votes = ov\<rparr> st
            else st))"

text \<open>The loop over \<^verbatim>\<open>ocr_dict.items()\<close>.\<close>

fun ocr_pass :: "vote_dict \<Rightarrow> (string \<times> int) list \<Rightarrow> comparison \<Rightarrow> comparison" where
  "ocr_pass text_dict [] st = st"
| "ocr_pass text_dict ((n, v) # items) st =
     ocr_pass text_dict items
       (if n \<notin> set (dict_keys text_dict)
        then record_difference \<lparr>dname = n, text_votes = None, ocr_votes = Some v\<rparr> st
        else st)"

definition compare_vote_results :: "string list \<Rightarrow> vote list \<Rightarrow> vote list \<Rightarrow> comparison" where
  "compare_vote_results cn tvs ovs =
     (let text_dict = dict_of_votes tvs; ocr_dict = dict_of_votes ovs
      in ocr_pass text_dict ocr_dict
           (registry_pass text_dict ocr_dict cn \<lparr>all_match = True, differences = []\<rparr>))"

text \<open>The entries that the loop over \<^verbatim>\<open>ocr_dict.items()\<close> appends.\<close>

definition ocr_only_differences :: "vote_dict \<Rightarrow> vote_dict \<Rightarrow> difference list" where
  "ocr_only_differences text_dict ocr_dict =
     map (\<lambda>(n, v). \<lparr>dname = n, text_votes = None, ocr_votes = Some v\<rparr>)
       (filter (\<lambda>(n, v). n \<notin> set (dict_keys text_dict)) ocr_dict)"

section \<open>The result formatter of table\_parser.py\<close>

text \<open>
  The percentage is computed in floating point, which is left abstract: \<open>'f\<close> is the
  type of floats, \<open>div_times_100 a b\<close> stands for \<^verbatim>\<open>a / b * 100\<close> (the true division of two
  integers raises \<^verbatim>\<open>OverflowError\<close> when the quotient is too large for a float) and
  \<open>round_2\<close> for \<^verbatim>\<open>round(x, 2)\<close>. When the total is not positive the percentage is the
  integer 0, and \<^verbatim>\<open>round(0, 2)\<close> is the integer 0.
\<close>

record 'f float_ops =
  div_times_100 :: "int \<Rightarrow> int \<Rightarrow> error + 'f"
  round_2 :: "'f \<Rightarrow> 'f"

datatype 'f number = IntNum int | FloatNum 'f

record 'f formatted_candidate = vote +
  percentage :: "'f number"

record 'f formatted_report =
  total_votes :: int
  candidates :: "'f formatted_candidate list"

definition rounded_percentage :: "'f float_ops \<Rightarrow> int \<Rightarrow> int \<Rightarrow> error + 'f number" where
  "rounded_percentage fl v tot =
     (if tot > 0
      then (case div_times_100 fl v tot of
              Inl e \<Rightarrow> Inl e
            | Inr x \<Rightarrow> Inr (FloatNum (round_2 fl x)))
      else Inr (IntNum 0))"

fun format_loop ::
  "'f float_ops \<Rightarrow> int \<Rightarrow> vote list \<Rightarrow> 'f formatted_candidate list
     \<Rightarrow> error + 'f formatted_candidate list" where
  "format_loop fl tot [] acc = Inr acc"
| "format_loop fl tot (c # cs) acc =
     (case rounded_percentage fl (votes c) tot of
        Inl e \<Rightarrow> Inl e
      | Inr p \<Rightarrow>
          format_loop fl tot cs
            (acc @ [\<lparr>name = name c, votes = votes c, percentage = p\<rparr>]))"

text \<open>
  \<^verbatim>\<open>list.sort(key=..., reverse=True)\<close> is Python's stable sort with every comparison
  reversed: descending by key, elements with equal keys in their original order. That is
  the stable ascending sort on the negated key.
\<close>

definition sort_reverse :: "('a \<Rightarrow> int) \<Rightarrow> 'a list \<Rightarrow> 'a list" where
  "sort_reverse key xs = sort_key (\<lambda>x. - key x) xs"

definition format_table_results :: "'f float_ops \<Rightarrow> vote list \<Rightarrow> error + 'f formatted_report" where
  "format_table_results fl cs =
     (if cs = [] then Inr \<lparr>total_votes = 0, candidates = []\<rparr>
      else
        let tot = sum_list (map votes cs)
        in (case format_loop fl tot cs [] of
              Inl e \<Rightarrow> Inl e
            | Inr formatted \<Rightarrow>
                Inr \<lparr>total_votes = tot, candidates = sort_reverse votes formatted\<rparr>))"

text \<open>
  A VoteSet of the data model holds non-negative counts. For such an input every quotient
  \<^verbatim>\<open>votes / total_votes\<close> lies between 0 and 1; \<open>divides_small_quotients\<close> says that the
  float division returns on these.
\<close>

definition vote_set :: "vote list \<Rightarrow> bool" where
  "vote_set cs = list_all (\<lambda>c. 0 \<le> votes c) cs"

definition divides_small_quotients :: "'f float_ops \<Rightarrow> bool" where
  "divides_small_quotients fl = (\<forall>a b. 0 \<le> a \<and> a \<le> b \<and> 0 < b \<longrightarrow> \<not> isl (div_times_100 fl a b))"

text \<open>The name and the count of a record, with or without a percentage.\<close>

definition name_and_votes :: "'a vote_scheme \<Rightarrow> string \<times> int" where
  "name_and_votes c = (name c, votes c)"

text \<open>Descending by votes: each record has at least the votes of every later one.\<close>

definition descending_by_votes :: "'a vote_scheme list \<Rightarrow> bool" where
  "descending_by_votes xs = sorted_wrt (\<lambda>a b. votes b \<le> votes a) xs"

section \<open>pdf\_extractor.py\<close>

text \<open>
  A page as the document-rendering library gives it: \<^verbatim>\<open>page.extract_text()\<close> (a string
  or \<^verbatim>\<open>None\<close>) and the grids \<^verbatim>\<open>table.extract()\<close> of \<^verbatim>\<open>page.find_tables()\<close>.
\<close>

record page =
  extract_text :: "string option"
  find_tables :: "grid list"

text \<open>
  The entry of \<^verbatim>\<open>result["pages"]\<close> that \<open>extract_pdf_content\<close> builds; \<open>text_content\<close> is
  its key \<^verbatim>\<open>"text"\<close>. The keys \<^verbatim>\<open>"image"\<close> and \<^verbatim>\<open>"ocr"\<close>, which the loop over the rendered
  images adds, are a second component of abstract type \<open>'o\<close>.
\<close>

record 'f page_content =
  page_number :: int
  text_content :: string
  text_tables :: "grid list"
  text_parsed_votes :: "vote list"
  text_formatted_results :: "'f formatted_report"
  ocr_parsed_votes :: "vote list"
  ocr_formatted_results :: string
  ocr_total_votes :: int
  vote_comparison :: comparison

text \<open>
  The collaborators, as parameters. \<open>'fs\<close> is the state of the file system.
  \<^item> \<open>run_pdftoppm\<close>: the outcome of \<^verbatim>\<open>subprocess.run(['pdftoppm', '-v'], ...)\<close>, \<open>None\<close>
    when it returns and the exception otherwise;
  \<^item> \<open>path_exists\<close>: \<^verbatim>\<open>os.path.exists\<close>;
  \<^item> \<open>pdf_pages\<close>: \<^verbatim>\<open>pdfplumber.open(path).pages\<close>;
  \<^item> \<open>images_and_ocr\<close>: the rendering of the page by \<^verbatim>\<open>pdf2image\<close> and the loop over
    the images (the arguments are the path, the page number and \<^verbatim>\<open>use_google_vision\<close>);
  \<^item> \<open>makedirs\<close>: \<^verbatim>\<open>os.makedirs(path, exist_ok=True)\<close>;
  \<^item> \<open>write_bytes\<close>, \<open>write_json\<close>: opening a file for writing and writing the bytes,
    or the JSON dump of a result, to it;
  \<^item> \<open>http_get k url\<close>: the content of the response to \<^verbatim>\<open>requests.request("GET", url,
    headers=headers)\<close>, the \<open>k\<close>-th request of the run, or the exception it raises.
\<close>

record ('fs, 'f, 'o) env =
  CANDIDATE_NAMES :: "string list"
  max_str_digits :: nat
  findall :: "string \<Rightarrow> (string \<times> string) list"
  floats :: "'f float_ops"
  run_pdftoppm :: "error option"
  path_exists :: "'fs \<Rightarrow> string \<Rightarrow> bool"
  pdf_pages :: "'fs \<Rightarrow> string \<Rightarrow> error + page list"
  images_and_ocr :: "'fs \<Rightarrow> string \<Rightarrow> int \<Rightarrow> bool \<Rightarrow> error + 'o"
  makedirs :: "'fs \<Rightarrow> string \<Rightarrow> error + 'fs"
  write_bytes :: "'fs \<Rightarrow> string \<Rightarrow> string \<Rightarrow> error + 'fs"
  write_json :: "'fs \<Rightarrow> string \<Rightarrow> 'f page_content \<times> 'o \<Rightarrow> error + 'fs"
  http_get :: "nat \<Rightarrow> string \<Rightarrow> error + string"

text \<open>\<open>check_poppler_installation\<close> catches \<^verbatim>\<open>FileNotFoundError\<close> only.\<close>

definition check_poppler_installation :: "('fs, 'f, 'o) env \<Rightarrow> error + bool" where
  "check_poppler_installation env =
     (case run_pdftoppm env of
        None \<Rightarrow> Inr True
      | Some (FileNotFoundError m) \<Rightarrow> Inr False
      | Some e \<Rightarrow> Inl e)"

text \<open>\<^verbatim>\<open>xs[i]\<close> for an integer index: a negative index counts from the end.\<close>

definition index_int :: "'a list \<Rightarrow> int \<Rightarrow> error + 'a" where
  "index_int xs i =
     (if 0 \<le> i \<and> i < int (length xs) then Inr (xs ! nat i)
      else if i < 0 \<and> - int (length xs) \<le> i then Inr (xs ! nat (int (length xs) + i))
      else Inl IndexError)"

text \<open>\<^verbatim>\<open>f"PDF only has {len(pdf.pages)} pages, requested page {page_number}"\<close>\<close>

definition page_range_message :: "nat \<Rightarrow> nat \<Rightarrow> int \<Rightarrow> error + string" where
  "page_range_message lim n page_no =
     (case py_str lim (int n) of
        Inl e \<Rightarrow> Inl e
      | Inr sn \<Rightarrow>
          (case py_str lim page_no of
             Inl e \<Rightarrow> Inl e
           | Inr sp \<Rightarrow> Inr (''PDF only has '' @ sn @ '' pages, requested page '' @ sp)))"

text \<open>The dictionary \<open>page_content\<close>, its entries evaluated in the source's order.\<close>

definition build_page_content ::
  "('fs, 'f, 'o) env \<Rightarrow> page \<Rightarrow> int \<Rightarrow> error + 'f page_content" where
  "build_page_content env pg page_no =
     (let tables = find_tables pg;
          txt = (case extract_text pg of None \<Rightarrow> [] | Some t \<Rightarrow> t)
      in (case parse_candidate_votes (findall env) (max_str_digits env) (CANDIDATE_NAMES env) txt of
            Inl e \<Rightarrow> Inl e
          | Inr ocr_parsed \<Rightarrow>
              (case parse_table_votes (max_str_digits env) (CANDIDATE_NAMES env)
                      (if tables \<noteq> [] then hd tables else []) of
                 Inl e \<Rightarrow> Inl e
               | Inr text_parsed \<Rightarrow>
                   (case format_table_results (floats env) text_parsed of
                      Inl e \<Rightarrow> Inl e
                    | Inr text_formatted \<Rightarrow>
                        (case format_results (max_str_digits env) ocr_parsed of
                           Inl e \<Rightarrow> Inl e
                         | Inr ocr_formatted \<Rightarrow>
                             Inr \<lparr>page_number = page_no,
                                  text_content = txt,
                                  text_tables = tables,
                                  text_parsed_votes = text_parsed,
                                  text_formatted_results = text_formatted,
                                  ocr_parsed_votes = ocr_parsed,
                                  ocr_formatted_results = ocr_formatted,
                                  ocr_total_votes = sum_list (map votes ocr_parsed),
                                  vote_comparison =
                                    compare_vote_results (CANDIDATE_NAMES env)
                                      text_parsed ocr_parsed\<rparr>)))))"

definition extract_pdf_content ::
  "('fs, 'f, 'o) env \<Rightarrow> 'fs \<Rightarrow> string \<Rightarrow> bool \<Rightarrow> int \<Rightarrow> error + 'f page_content \<times> 'o" where
  "extract_pdf_content env fs pdf_path use_google_vision page_no =
     (case check_poppler_installation env of
        Inl e \<Rightarrow> Inl e
      | Inr installed \<Rightarrow>
          if \<not> installed then Inl (SystemExit 1)
          else if \<not> path_exists env fs pdf_path
          then Inl (FileNotFoundError (''PDF file not found: '' @ pdf_path))
          else
            (case pdf_pages env fs pdf_path of
               Inl e \<Rightarrow> Inl e
             | Inr pages \<Rightarrow>
                 if page_no > int (length pages)
                 then (case page_range_message (max_str_digits env) (length pages) page_no of
                         Inl e \<Rightarrow> Inl e
                       | Inr m \<Rightarrow> Inl (ValueError m))
                 else
                   (case index_int pages (page_no - 1) of
                      Inl e \<Rightarrow> Inl e
                    | Inr pg \<Rightarrow>
                        (case build_page_content env pg page_no of
                           Inl e \<Rightarrow> Inl e
                         | Inr content \<Rightarrow>
                             (case images_and_ocr env fs pdf_path page_no use_google_vision of
                                Inl e \<Rightarrow> Inl e
                              | Inr o_part \<Rightarrow> Inr (content, o_part))))))"

text \<open>
  \<open>process_file\<close>. The variable \<^verbatim>\<open>pdf_file\<close> first holds the file name, the last segment
  of the URL; the download assigns the response object to the same variable. A response
  object is identified by the number of the request that produced it. The set
  \<^verbatim>\<open>processed_files\<close> holds whatever values are added to it.
\<close>

datatype pdf_file_value = Filename string | Response nat string

record remote_file =
  url :: "string option"

record 'fs world =
  fs :: 'fs
  processed_files :: "pdf_file_value set"
  requests_made :: "string list"

definition base_url :: string where
  "base_url = ''https://prezenta.roaep.ro/prezidentiale24112024/''"

text \<open>\<^verbatim>\<open>f"{x}"\<close> for a string or \<^verbatim>\<open>None\<close>.\<close>

fun format_optional :: "string option \<Rightarrow> string" where
  "format_optional None = ''None''"
| "format_optional (Some u) = u"

text \<open>\<^verbatim>\<open>s.split("/")[-1]\<close>: what follows the last slash.\<close>

definition last_segment :: "string \<Rightarrow> string" where
  "last_segment s = rev (takeWhile (\<lambda>c. c \<noteq> CHR ''/'') (rev s))"

text \<open>
  The outcome of a call that returns nothing: \<open>None\<close> when it returns, \<open>Some e\<close> when the
  exception \<open>e\<close> leaves it. \<open>caught\<close> is the handler \<^verbatim>\<open>except Exception\<close>.
\<close>

definition caught :: "error \<Rightarrow> error option" where
  "caught e = (if is_Exception e then None else Some e)"

text \<open>
  Lines 187-190: the download, when the file is not on disk. The result is the value of
  the variable \<^verbatim>\<open>pdf_file\<close> afterwards, or the exception raised, with the new state;
  \<open>requests_made\<close> records every request sent.
\<close>

definition download_if_missing ::
  "('fs, 'f, 'o) env \<Rightarrow> string \<Rightarrow> string \<Rightarrow> string \<Rightarrow> 'fs world
     \<Rightarrow> (error + pdf_file_value) \<times> 'fs world" where
  "download_if_missing env pdf_url saved_filename pdf_file w =
     (if \<not> path_exists env (fs w) saved_filename
      then (let k = length (requests_made w);
                w' = w\<lparr>requests_made := requests_made w @ [pdf_url]\<rparr>
            in (case http_get env k pdf_url of
                  Inl e \<Rightarrow> (Inl e, w')
                | Inr content \<Rightarrow>
                    (case write_bytes env (fs w) saved_filename content of
                       Inl e \<Rightarrow> (Inl e, w')
                     | Inr fs' \<Rightarrow> (Inr (Response k content), w'\<lparr>fs := fs'\<rparr>))))
      else (Inr (Filename pdf_file), w))"

text \<open>Lines 193-206: the \<^verbatim>\<open>try\<close> block and its handler.\<close>

definition extract_and_mark ::
  "('fs, 'f, 'o) env \<Rightarrow> string \<Rightarrow> string \<Rightarrow> pdf_file_value \<Rightarrow> 'fs world
     \<Rightarrow> error option \<times> 'fs world" where
  "extract_and_mark env ident saved_filename pdf_file w =
     (case extract_pdf_content env (fs w) saved_filename False 2 of
        Inl e \<Rightarrow> (caught e, w)
      | Inr content \<Rightarrow>
          if \<not> all_match (vote_comparison (fst content))
          then (case makedirs env (fs w) ''data/problems'' of
                  Inl e \<Rightarrow> (caught e, w)
                | Inr fs1 \<Rightarrow>
                    (case write_json env fs1 (''data/problems/'' @ ident @ ''.json'') content of
                       Inl e \<Rightarrow> (caught e, w\<lparr>fs := fs1\<rparr>)
                     | Inr fs2 \<Rightarrow>
                         (None, w\<lparr>fs := fs2,
                                  processed_files := insert pdf_file (processed_files w)\<rparr>)))
          else (None, w\<lparr>processed_files := insert pdf_file (processed_files w)\<rparr>))"

definition process_file ::
  "('fs, 'f, 'o) env \<Rightarrow> string \<times> remote_file list \<Rightarrow> 'fs world \<Rightarrow> error option \<times> 'fs world" where
  "process_file env file_data w =
     (case file_data of
        (ident, []) \<Rightarrow> (None, w)
      | (ident, f0 # rest) \<Rightarrow>
          (case makedirs env (fs w) ''data'' of
             Inl e \<Rightarrow> (Some e, w)
           | Inr fs1 \<Rightarrow>
               (let pdf_url = base_url @ format_optional (url f0);
                    pdf_file = last_segment pdf_url
                in (case makedirs env fs1 ''data/pdfs'' of
                      Inl e \<Rightarrow> (Some e, w\<lparr>fs := fs1\<rparr>)
                    | Inr fs2 \<Rightarrow>
                        (let saved_filename = ''data/pdfs/'' @ pdf_file;
                             w2 = w\<lparr>fs := fs2\<rparr>
                         in if Filename pdf_file \<in> processed_files w2 then (None, w2)
                            else (case download_if_missing env pdf_url saved_filename pdf_file w2 of
                                    (Inl e, w3) \<Rightarrow> (Some e, w3)
                                  | (Inr pdf_file', w3) \<Rightarrow>
                                      extract_and_mark env ident saved_filename pdf_file' w3))))))"

section \<open>A sample run\<close>

text \<open>
  A concrete registry, page and environment, on which the definitions are evaluated.
  The file system of the sample is the list of the writes made, latest first, as pairs of
  path and content; the document has two pages, the second one with the table and the
  text below; \<open>sample_findall\<close> is what \<^verbatim>\<open>re.findall\<close> returns on that text.
\<close>

definition sample_names :: "string list" where
  "sample_names = [''CANDIDATE A'', ''CANDIDATE B'']"

definition sample_table :: grid where
  "sample_table =
     [[Some ''Nr'', Some ''Candidate'', Some ''Votes''],
      [Some ''1'', Some ''CANDIDATE A'', Some ''150''],
      [Some ''2'', Some ''CANDIDATE B'', Some ''200'']]"

definition sample_text :: string where
  "sample_text = ''1 CANDIDATE A 150'' @ [CHR 0x0A] @ ''2 CANDIDATE B 209''"

definition sample_findall :: "string \<Rightarrow> (string \<times> string) list" where
  "sample_findall t =
     (if t = sample_text then [(''CANDIDATE A'', ''150''), (''CANDIDATE B'', ''209'')] else [])"

definition sample_pages :: "page list" where
  "sample_pages =
     [\<lparr>extract_text = None, find_tables = []\<rparr>,
      \<lparr>extract_text = Some sample_text, find_tables = [sample_table]\<rparr>]"

definition sample_floats :: "int float_ops" where
  "sample_floats = \<lparr>div_times_100 = (\<lambda>a b. Inr (a * 100 div b)), round_2 = (\<lambda>x. x)\<rparr>"

definition sample_env :: "((string \<times> string) list, int, unit) env" where
  "sample_env =
     \<lparr>CANDIDATE_NAMES = sample_names,
      max_str_digits = 4300,
      findall = sample_findall,
      floats = sample_floats,
      run_pdftoppm = None,
      path_exists = (\<lambda>files p. p \<in> set (map fst files)),
      pdf_pages = (\<lambda>files p. Inr sample_pages),
      images_and_ocr = (\<lambda>files p n g. Inr ()),
      makedirs = (\<lambda>files p. Inr files),
      write_bytes = (\<lambda>files p b. Inr ((p, b) # files)),
      write_json = (\<lambda>files p c. Inr ((p, ''json'') # files)),
      http_get = (\<lambda>k u. Inr ''%PDF'')\<rparr>"

definition sample_item :: "string \<times> remote_file list" where
  "sample_item = (''7'', [\<lparr>url = Some ''data/pv/a.pdf''\<rparr>])"

definition sample_world :: "(string \<times> string) list world" where
  "sample_world = \<lparr>fs = [], processed_files = {}, requests_made = []\<rparr>"

section \<open>The table parser returns, and what it returns\<close>

lemma py_int_error: "py_int lim s = Inl e \<Longrightarrow> is_ValueError e"
  by (auto simp: py_int_def signed_digits_def invalid_literal_def digit_limit_exceeded_def
      split: list.splits option.splits if_splits)

lemma row_step_eq: "row_step lim cn row acc = Inr (acc @ row_contribution lim cn row)"
proof (cases "3 \<le> length row")
  case False
  then show ?thesis
    by (simp add: row_step_def row_has_name_and_votes_def row_contribution_def)
next
  case True
  then have i1: "index row 1 = Inr (row ! 1)" and i2: "index row 2 = Inr (row ! 2)"
    by (simp_all add: index_def)
  show ?thesis
  proof (cases "row ! 1")
    case None
    with True i1 show ?thesis
      by (simp add: row_step_def row_has_name_and_votes_def row_contribution_def row_votes_def)
  next
    case c1: (Some n)
    show ?thesis
    proof (cases "row ! 2")
      case None
      with True i1 i2 c1 show ?thesis
        by (simp add: row_step_def row_has_name_and_votes_def row_contribution_def row_votes_def)
    next
      case c2: (Some s)
      show ?thesis
      proof (cases "py_int lim s")
        case (Inl e)
        with py_int_error have "is_ValueError e" by blast
        with Inl True i1 i2 c1 c2 show ?thesis
          by (simp add: row_step_def row_has_name_and_votes_def row_contribution_def
              row_votes_def try_row_def)
      next
        case (Inr v)
        with True i1 i2 c1 c2 show ?thesis
          by (simp add: row_step_def row_has_name_and_votes_def row_contribution_def
              row_votes_def try_row_def)
      qed
    qed
  qed
qed

lemma table_loop_eq:
  "table_loop lim cn rows acc = Inr (acc @ concat (map (row_contribution lim cn) rows))"
  by (induction rows arbitrary: acc) (simp_all add: row_step_eq)

lemma parse_table_votes_eq:
  "parse_table_votes lim cn g = Inr (concat (map (row_contribution lim cn) (tl g)))"
proof (cases g)
  case Nil
  then show ?thesis by (simp add: parse_table_votes_def)
next
  case (Cons h rows)
  then show ?thesis
    by (cases rows) (simp_all add: parse_table_votes_def table_loop_eq)
qed

lemma malformed_row_contribution: "malformed_row lim row \<Longrightarrow> row_contribution lim cn row = []"
  by (cases "row ! 1"; cases "row ! 2")
    (auto simp: malformed_row_def row_contribution_def row_votes_def split: if_splits sum.splits)

lemma concat_map_filter_nonempty:
  "(\<And>x. x \<in> set xs \<Longrightarrow> \<not> P x \<Longrightarrow> f x = []) \<Longrightarrow> concat (map f (filter P xs)) = concat (map f xs)"
  by (induction xs) auto

lemma row_contribution_names: "r \<in> set (row_contribution lim cn row) \<Longrightarrow> name r \<in> set cn"
  by (auto simp: row_contribution_def row_votes_def split: if_splits option.splits sum.splits)

lemmas eval_defs =
  parse_table_votes_def row_step_def row_has_name_and_votes_def try_row_def index_def
  py_int_def signed_digits_def int_space_def is_space_def strip_def code_point_def
  is_digit_def decimal_value_def digit_value_def malformed_row_def row_contribution_def
  row_votes_def

text \<open>
  Claim C6. \<open>parse_table_votes\<close> returns a list for every grid of cells, each a string or
  \<^verbatim>\<open>None\<close>: no exception leaves it. The empty grid and a grid of the header alone give
  the empty list; malformed rows (fewer than three cells, an empty name or votes cell, a
  votes cell that is not an integer literal) contribute nothing, so that removing them
  does not change the result, and a grid whose data rows are all malformed gives the
  empty list.
\<close>

theorem parse_table_votes_never_raises:
  "(\<exists>vs. parse_table_votes lim cn g = Inr vs)
   \<and> parse_table_votes lim cn [] = Inr []
   \<and> parse_table_votes lim cn [header] = Inr []
   \<and> parse_table_votes lim cn (header # rows)
       = parse_table_votes lim cn (header # filter (\<lambda>row. \<not> malformed_row lim row) rows)
   \<and> (list_all (malformed_row lim) rows \<longrightarrow> parse_table_votes lim cn (header # rows) = Inr [])"
proof -
  have skip: "concat (map (row_contribution lim cn) (filter (\<lambda>row. \<not> malformed_row lim row) rows))
      = concat (map (row_contribution lim cn) rows)"
    by (rule concat_map_filter_nonempty) (simp add: malformed_row_contribution)
  have "list_all (malformed_row lim) rows \<Longrightarrow> concat (map (row_contribution lim cn) rows) = []"
    by (simp add: list_all_iff malformed_row_contribution)
  with skip show ?thesis
    by (simp add: parse_table_votes_eq)
qed

theorem parse_table_votes_never_raises_witness:
  "list_all (malformed_row 4300) [[Some ''1'', Some ''CANDIDATE A''], [None, Some ''CANDIDATE A'', Some ''12x'']]
   \<and> parse_table_votes 4300 [''CANDIDATE A'']
        [[Some ''Nr'', Some ''Name'', Some ''Votes''],
         [Some ''1'', Some ''CANDIDATE A''], [None, Some ''CANDIDATE A'', Some ''12x'']] = Inr []"
  using parse_table_votes_never_raises [of 4300 "[''CANDIDATE A'']" "[]"
      "[Some ''Nr'', Some ''Name'', Some ''Votes'']"
      "[[Some ''1'', Some ''CANDIDATE A''], [None, Some ''CANDIDATE A'', Some ''12x'']]"]
  by (simp add: eval_defs)


lemma row_contribution_cong:
  "(3 \<le> length r) = (3 \<le> length r') \<Longrightarrow> (3 \<le> length r \<Longrightarrow> r ! 1 = r' ! 1 \<and> r ! 2 = r' ! 2)
   \<Longrightarrow> row_contribution lim cn r = row_contribution lim cn r'"
  by (auto simp: row_contribution_def)

lemma concat_map_list_all2:
  "list_all2 (\<lambda>x y. f x = f y) xs ys \<Longrightarrow> concat (map f xs) = concat (map f ys)"
  by (induction xs ys rule: list_all2_induct) auto

text \<open>
  Claim C10. For every grid, the result of \<open>parse_table_votes\<close> is the concatenation,
  over the rows after the first, of what the row's cells at index 1 (the name) and at
  index 2 (the votes) give when the row has at least three cells, and of nothing
  otherwise. So two grids whose data rows agree, row by row, on having at least three
  cells and, when they have, on the cells at index 1 and 2, give the same result: the
  header row and the other cells do not matter.
\<close>

theorem parse_table_votes_reads_cells_1_and_2:
  "parse_table_votes lim cn g
     = Inr (concat (map (\<lambda>row. if 3 \<le> length row then row_votes lim cn (row ! 1) (row ! 2) else [])
                     (tl g)))
   \<and> (list_all2 (\<lambda>r r'. (3 \<le> length r) = (3 \<le> length r')
                          \<and> (3 \<le> length r \<longrightarrow> r ! 1 = r' ! 1 \<and> r ! 2 = r' ! 2)) (tl g) (tl g')
        \<longrightarrow> parse_table_votes lim cn g = parse_table_votes lim cn g')"
proof -
  have first: "parse_table_votes lim cn g
     = Inr (concat (map (\<lambda>row. if 3 \<le> length row then row_votes lim cn (row ! 1) (row ! 2) else [])
                     (tl g)))"
    using parse_table_votes_eq [of lim cn g] by (simp add: row_contribution_def [abs_def])
  have second: "parse_table_votes lim cn g = parse_table_votes lim cn g'"
    if h: "list_all2 (\<lambda>r r'. (3 \<le> length r) = (3 \<le> length r')
                          \<and> (3 \<le> length r \<longrightarrow> r ! 1 = r' ! 1 \<and> r ! 2 = r' ! 2)) (tl g) (tl g')"
  proof -
    from h have "list_all2 (\<lambda>r r'. row_contribution lim cn r = row_contribution lim cn r') (tl g) (tl g')"
      by (rule list_all2_mono) (rule row_contribution_cong, simp_all)
    then have "concat (map (row_contribution lim cn) (tl g)) = concat (map (row_contribution lim cn) (tl g'))"
      by (rule concat_map_list_all2)
    then show ?thesis by (simp add: parse_table_votes_eq)
  qed
  show ?thesis
  proof (intro conjI impI)
    show "parse_table_votes lim cn g
     = Inr (concat (map (\<lambda>row. if 3 \<le> length row then row_votes lim cn (row ! 1) (row ! 2) else [])
                     (tl g)))"
      by (rule first)
  next
    assume "list_all2 (\<lambda>r r'. (3 \<le> length r) = (3 \<le> length r')
                          \<and> (3 \<le> length r \<longrightarrow> r ! 1 = r' ! 1 \<and> r ! 2 = r' ! 2)) (tl g) (tl g')"
    then show "parse_table_votes lim cn g = parse_table_votes lim cn g'"
      by (rule second)
  qed
qed

theorem parse_table_votes_reads_cells_1_and_2_witness:
  "list_all2 (\<lambda>r r'. (3 \<le> length r) = (3 \<le> length r')
                    \<and> (if 3 \<le> length r then r ! 1 = r' ! 1 \<and> r ! 2 = r' ! 2 else True))
     [[Some ''1'', Some ''CANDIDATE A'', Some ''150'', None], [Some ''x'']]
     [[None, Some ''CANDIDATE A'', Some ''150'', Some ''9'', Some ''z''], []]
   \<and> parse_table_votes 4300 [''CANDIDATE A'']
        [[Some ''Nr'', Some ''Name'', Some ''Votes''],
         [Some ''1'', Some ''CANDIDATE A'', Some ''150'', None], [Some ''x'']]
      = Inr [\<lparr>name = ''CANDIDATE A'', votes = 150\<rparr>]
   \<and> parse_table_votes 4300 [''CANDIDATE A'']
        [[], [None, Some ''CANDIDATE A'', Some ''150'', Some ''9'', Some ''z''], []]
      = Inr [\<lparr>name = ''CANDIDATE A'', votes = 150\<rparr>]"
  using parse_table_votes_reads_cells_1_and_2 [of 4300 "[''CANDIDATE A'']"
      "[[Some ''Nr'', Some ''Name'', Some ''Votes''],
        [Some ''1'', Some ''CANDIDATE A'', Some ''150'', None], [Some ''x'']]"
      "[[], [None, Some ''CANDIDATE A'', Some ''150'', Some ''9'', Some ''z''], []]"]
  by (simp add: eval_defs)

section \<open>What the two parsers keep\<close>

lemma candidate_loop_records:
  "candidate_loop lim cn ms acc = Inr rs \<Longrightarrow> r \<in> set rs \<Longrightarrow>
     r \<in> set acc \<or> (name r \<in> set cn \<and> 0 \<le> votes r)"
proof (induction ms arbitrary: acc)
  case Nil
  then show ?case by simp
next
  case (Cons m ms)
  obtain n v where m: "m = (n, v)" by (cases m)
  show ?case
  proof (cases "py_int lim v")
    case (Inl e)
    with Cons.prems m show ?thesis by simp
  next
    case (Inr k)
    with Cons.prems m have
      "candidate_loop lim cn ms
         (if strip n \<in> set cn \<and> 0 \<le> k then acc @ [\<lparr>name = strip n, votes = k\<rparr>] else acc) = Inr rs"
      by (simp add: Let_def)
    from Cons.IH [OF this Cons.prems(2)] show ?thesis
      by (auto split: if_splits)
  qed
qed

lemma candidate_loop_returns:
  "list_all (\<lambda>m. \<not> isl (py_int lim (snd m))) ms \<Longrightarrow> \<exists>rs. candidate_loop lim cn ms acc = Inr rs"
proof (induction ms arbitrary: acc)
  case Nil
  then show ?case by simp
next
  case (Cons m ms)
  obtain n v where m: "m = (n, v)" by (cases m)
  with Cons.prems obtain k where k: "py_int lim v = Inr k"
    by (cases "py_int lim v") auto
  from Cons.prems have "list_all (\<lambda>m. \<not> isl (py_int lim (snd m))) ms" by simp
  from Cons.IH [OF this] m k show ?case by (simp add: Let_def)
qed

text \<open>
  Claim C5. For every grid, \<open>parse_table_votes\<close> returns a list whose records all bear a
  name of the registry; for every text, every record of the list that
  \<open>parse_candidate_votes\<close> returns bears a name of the registry, and it returns a list
  whenever \<^verbatim>\<open>int\<close> accepts the digits of every match.
\<close>

theorem parsers_keep_registry_names_only:
  "(\<exists>vs. parse_table_votes lim cn g = Inr vs \<and> (\<forall>r \<in> set vs. name r \<in> set cn))
   \<and> (parse_candidate_votes finder lim cn txt = Inr ws \<longrightarrow> (\<forall>r \<in> set ws. name r \<in> set cn))
   \<and> (list_all (\<lambda>m. \<not> isl (py_int lim (snd m))) (finder txt)
        \<longrightarrow> (\<exists>ws. parse_candidate_votes finder lim cn txt = Inr ws))"
proof -
  have "\<forall>r \<in> set (concat (map (row_contribution lim cn) (tl g))). name r \<in> set cn"
    by (auto dest: row_contribution_names)
  then have table: "\<exists>vs. parse_table_votes lim cn g = Inr vs \<and> (\<forall>r \<in> set vs. name r \<in> set cn)"
    by (simp add: parse_table_votes_eq)
  have text_part: "\<forall>r \<in> set ws. name r \<in> set cn" if "parse_candidate_votes finder lim cn txt = Inr ws"
    using that candidate_loop_records [of lim cn "finder txt" "[]" ws]
    by (auto simp: parse_candidate_votes_def)
  have "\<exists>ws. parse_candidate_votes finder lim cn txt = Inr ws"
    if "list_all (\<lambda>m. \<not> isl (py_int lim (snd m))) (finder txt)"
    using candidate_loop_returns [OF that] by (simp add: parse_candidate_votes_def)
  with table text_part show ?thesis by (intro conjI impI)
qed

theorem parsers_keep_registry_names_only_witness:
  "parse_table_votes 4300 sample_names
       (sample_table @ [[Some ''3'', Some ''NOT A CANDIDATE'', Some ''99'']])
     = Inr [\<lparr>name = ''CANDIDATE A'', votes = 150\<rparr>, \<lparr>name = ''CANDIDATE B'', votes = 200\<rparr>]
   \<and> list_all (\<lambda>m. \<not> isl (py_int 4300 (snd m)))
        [(''CANDIDATE A '', ''150''), (''NOT A CANDIDATE'', ''99'')]
   \<and> parse_candidate_votes (\<lambda>t. [(''CANDIDATE A '', ''150''), (''NOT A CANDIDATE'', ''99'')])
        4300 sample_names ''1 CANDIDATE A  150 NOT A CANDIDATE 99''
     = Inr [\<lparr>name = ''CANDIDATE A'', votes = 150\<rparr>]
   \<and> name \<lparr>name = ''CANDIDATE A'', votes = 150\<rparr> \<in> set sample_names"
  using parsers_keep_registry_names_only [of 4300 sample_names
      "sample_table @ [[Some ''3'', Some ''NOT A CANDIDATE'', Some ''99'']]"
      "\<lambda>t. [(''CANDIDATE A '', ''150''), (''NOT A CANDIDATE'', ''99'')]"
      "''1 CANDIDATE A  150 NOT A CANDIDATE 99''"
      "[\<lparr>name = ''CANDIDATE A'', votes = 150\<rparr>]"]
  by (simp add: eval_defs invalid_literal_def sample_names_def sample_table_def parse_candidate_votes_def)

text \<open>
  Claim C4. The text parser keeps a pair only when \<^verbatim>\<open>votes >= 0\<close>
  (\<open>parse_candidate_votes_nonnegative\<close> below); the table parser has no such test. A
  votes cell \<^verbatim>\<open>"-5"\<close> is an integer literal, and the row's record, with the count -5, is
  in the result.
\<close>

theorem parse_table_votes_keeps_negative_count:
  "parse_table_votes 4300 sample_names
     [[Some ''Nr'', Some ''Candidate'', Some ''Votes''], [Some ''1'', Some ''CANDIDATE A'', Some ''-5'']]
   = Inr [\<lparr>name = ''CANDIDATE A'', votes = - 5\<rparr>]"
  by (simp add: eval_defs sample_names_def)

lemma parse_candidate_votes_nonnegative:
  "parse_candidate_votes finder lim cn txt = Inr ws \<Longrightarrow> r \<in> set ws \<Longrightarrow> 0 \<le> votes r"
  using candidate_loop_records [of lim cn "finder txt" "[]" ws r]
  by (simp add: parse_candidate_votes_def)

section \<open>The formatter\<close>

lemma format_loop_shape:
  "format_loop fl tot cs acc = Inr out \<Longrightarrow>
     map name_and_votes out = map name_and_votes acc @ map name_and_votes cs"
proof (induction cs arbitrary: acc)
  case Nil
  then show ?case by simp
next
  case (Cons c cs)
  show ?case
  proof (cases "rounded_percentage fl (votes c) tot")
    case (Inl e)
    with Cons.prems show ?thesis by simp
  next
    case (Inr p)
    with Cons.prems have
      "format_loop fl tot cs (acc @ [\<lparr>name = name c, votes = votes c, percentage = p\<rparr>]) = Inr out"
      by simp
    from Cons.IH [OF this] show ?thesis by (simp add: name_and_votes_def)
  qed
qed

lemma format_loop_returns:
  "list_all (\<lambda>c. \<not> isl (rounded_percentage fl (votes c) tot)) cs \<Longrightarrow>
     \<exists>out. format_loop fl tot cs acc = Inr out"
proof (induction cs arbitrary: acc)
  case Nil
  then show ?case by simp
next
  case (Cons c cs)
  then obtain p where p: "rounded_percentage fl (votes c) tot = Inr p"
    by (cases "rounded_percentage fl (votes c) tot") auto
  from Cons.prems have "list_all (\<lambda>c. \<not> isl (rounded_percentage fl (votes c) tot)) cs" by simp
  from Cons.IH [OF this] p show ?case by simp
qed

lemma votes_le_total:
  "vote_set cs \<Longrightarrow> c \<in> set cs \<Longrightarrow> 0 \<le> votes c \<and> votes c \<le> sum_list (map votes cs)"
proof (induction cs)
  case Nil
  then show ?case by simp
next
  case (Cons d cs)
  from Cons.prems(1) have d: "0 \<le> votes d" and rest: "vote_set cs"
    by (simp_all add: vote_set_def)
  from rest have nonneg: "0 \<le> sum_list (map votes cs)"
    by (intro sum_list_nonneg) (auto simp: vote_set_def list_all_iff)
  show ?case
  proof (cases "c = d")
    case True
    with d nonneg show ?thesis by simp
  next
    case False
    with Cons.prems(2) have "c \<in> set cs" by simp
    from Cons.IH [OF rest this] d show ?thesis by simp
  qed
qed

lemma rounded_percentage_returns:
  assumes "vote_set cs" and "divides_small_quotients fl" and "c \<in> set cs"
  shows "\<not> isl (rounded_percentage fl (votes c) (sum_list (map votes cs)))"
proof (cases "0 < sum_list (map votes cs)")
  case False
  then show ?thesis by (simp add: rounded_percentage_def)
next
  case True
  from votes_le_total [OF assms(1,3)] True assms(2)
  have "\<not> isl (div_times_100 fl (votes c) (sum_list (map votes cs)))"
    by (simp add: divides_small_quotients_def)
  with True show ?thesis
    by (cases "div_times_100 fl (votes c) (sum_list (map votes cs))")
      (simp_all add: rounded_percentage_def)
qed

lemma format_table_results_returns:
  assumes "vote_set cs" and "divides_small_quotients fl"
  shows "\<exists>r. format_table_results fl cs = Inr r"
proof (cases "cs = []")
  case True
  then show ?thesis by (simp add: format_table_results_def)
next
  case False
  have "list_all (\<lambda>c. \<not> isl (rounded_percentage fl (votes c) (sum_list (map votes cs)))) cs"
    using assms by (simp add: list_all_iff rounded_percentage_returns)
  from format_loop_returns [OF this] obtain out
    where "format_loop fl (sum_list (map votes cs)) cs [] = Inr out" by blast
  with False show ?thesis by (simp add: format_table_results_def)
qed

lemma format_table_results_Inr:
  assumes "format_table_results fl cs = Inr r"
  shows "total_votes r = sum_list (map votes cs)"
    and "\<exists>formatted. map name_and_votes formatted = map name_and_votes cs
           \<and> candidates r = sort_reverse votes formatted"
proof -
  have "total_votes r = sum_list (map votes cs)
      \<and> (\<exists>formatted. map name_and_votes formatted = map name_and_votes cs
           \<and> candidates r = sort_reverse votes formatted)"
  proof (cases "cs = []")
    case True
    with assms have "r = \<lparr>total_votes = 0, candidates = []\<rparr>"
      by (simp add: format_table_results_def)
    with True show ?thesis by (simp add: sort_reverse_def)
  next
    case False
    show ?thesis
    proof (cases "format_loop fl (sum_list (map votes cs)) cs []")
      case (Inl e)
      with False assms show ?thesis by (simp add: format_table_results_def)
    next
      case (Inr formatted)
      with False assms have r: "r = \<lparr>total_votes = sum_list (map votes cs),
          candidates = sort_reverse votes formatted\<rparr>"
        by (simp add: format_table_results_def)
      from format_loop_shape [OF Inr] have "map name_and_votes formatted = map name_and_votes cs"
        by simp
      with r show ?thesis by auto
    qed
  qed
  then show "total_votes r = sum_list (map votes cs)"
    and "\<exists>formatted. map name_and_votes formatted = map name_and_votes cs
           \<and> candidates r = sort_reverse votes formatted"
    by simp_all
qed

lemma sort_reverse_descending: "descending_by_votes (sort_reverse votes xs)"
proof -
  have "sorted (map (\<lambda>x. - votes x) (sort_key (\<lambda>x. - votes x) xs))"
    by (rule sorted_sort_key)
  then show ?thesis
    by (simp add: descending_by_votes_def sort_reverse_def sorted_map)
qed

lemma sort_reverse_stable:
  "filter (\<lambda>c. votes c = k) (sort_reverse votes xs) = filter (\<lambda>c. votes c = k) xs"
  using sort_key_stable [of "\<lambda>x. - votes x" "- k" xs]
  by (simp add: sort_reverse_def)

lemma filter_votes_map:
  "map name_and_votes (filter (\<lambda>c. votes c = k) xs)
     = filter (\<lambda>p. snd p = k) (map name_and_votes xs)"
  by (induction xs) (simp_all add: name_and_votes_def)

lemma descending_adjacent:
  "descending_by_votes xs \<Longrightarrow> Suc i < length xs \<Longrightarrow> votes (xs ! Suc i) \<le> votes (xs ! i)"
  unfolding descending_by_votes_def
  by (rule sorted_wrt_nth_less [where xs = xs and i = i and j = "Suc i"]) simp_all

text \<open>
  Claim C7. For the empty list \<open>format_table_results\<close> returns the report with total 0
  and no candidates. For every VoteSet (non-negative counts; the float division returns
  on quotients between 0 and 1) it returns a report whose \<open>total_votes\<close> is the sum of the
  votes of the input, and whenever it returns a report, for any list of records, the
  total is that sum.
\<close>

theorem format_table_results_total_is_sum:
  "format_table_results fl [] = Inr \<lparr>total_votes = 0, candidates = []\<rparr>
   \<and> (vote_set cs \<and> divides_small_quotients fl \<longrightarrow>
        (\<exists>r. format_table_results fl cs = Inr r \<and> total_votes r = sum_list (map votes cs)))
   \<and> (format_table_results fl cs = Inr r \<longrightarrow> total_votes r = sum_list (map votes cs))"
proof (intro conjI impI)
  show "format_table_results fl [] = Inr \<lparr>total_votes = 0, candidates = []\<rparr>"
    by (simp add: format_table_results_def)
next
  assume "vote_set cs \<and> divides_small_quotients fl"
  then obtain r' where "format_table_results fl cs = Inr r'"
    using format_table_results_returns by blast
  then show "\<exists>r. format_table_results fl cs = Inr r \<and> total_votes r = sum_list (map votes cs)"
    using format_table_results_Inr(1) by blast
next
  assume "format_table_results fl cs = Inr r"
  then show "total_votes r = sum_list (map votes cs)"
    by (rule format_table_results_Inr(1))
qed

lemmas format_eval_defs =
  format_table_results_def rounded_percentage_def sort_reverse_def sample_floats_def
  vote_set_def divides_small_quotients_def descending_by_votes_def name_and_votes_def

theorem format_table_results_total_is_sum_witness:
  "vote_set [\<lparr>name = ''CANDIDATE A'', votes = 150\<rparr>, \<lparr>name = ''CANDIDATE B'', votes = 200\<rparr>]
   \<and> divides_small_quotients sample_floats
   \<and> format_table_results sample_floats
        [\<lparr>name = ''CANDIDATE A'', votes = 150\<rparr>, \<lparr>name = ''CANDIDATE B'', votes = 200\<rparr>]
      = Inr \<lparr>total_votes = 350,
             candidates = [\<lparr>name = ''CANDIDATE B'', votes = 200, percentage = FloatNum 57\<rparr>,
                           \<lparr>name = ''CANDIDATE A'', votes = 150, percentage = FloatNum 42\<rparr>]\<rparr>
   \<and> total_votes \<lparr>total_votes = 350,
             candidates = [\<lparr>name = ''CANDIDATE B'', votes = 200, percentage = FloatNum (57::int)\<rparr>,
                           \<lparr>name = ''CANDIDATE A'', votes = 150, percentage = FloatNum 42\<rparr>]\<rparr>
      = sum_list (map votes
          [\<lparr>name = ''CANDIDATE A'', votes = 150\<rparr>, \<lparr>name = ''CANDIDATE B'', votes = 200\<rparr>])"
  using format_table_results_total_is_sum [of sample_floats
      "[\<lparr>name = ''CANDIDATE A'', votes = 150\<rparr>, \<lparr>name = ''CANDIDATE B'', votes = 200\<rparr>]"
      "\<lparr>total_votes = 350,
             candidates = [\<lparr>name = ''CANDIDATE B'', votes = 200, percentage = FloatNum 57\<rparr>,
                           \<lparr>name = ''CANDIDATE A'', votes = 150, percentage = FloatNum 42\<rparr>]\<rparr>"]
  by (simp add: format_eval_defs)

text \<open>
  Claim C8. For every VoteSet \<open>format_table_results\<close> returns a report, and in every
  report it returns the candidates are in descending order of votes: each has at least
  the votes of every later one, in particular of the next one; and for each count, the
  records with that count are the records of the input with that count, in the order of
  the input.
\<close>

theorem format_table_results_descending_stable:
  "(vote_set cs \<and> divides_small_quotients fl \<longrightarrow> (\<exists>r. format_table_results fl cs = Inr r))
   \<and> (format_table_results fl cs = Inr r \<longrightarrow>
        descending_by_votes (candidates r)
        \<and> (\<forall>i. Suc i < length (candidates r) \<longrightarrow>
              votes (candidates r ! Suc i) \<le> votes (candidates r ! i))
        \<and> (\<forall>k. map name_and_votes (filter (\<lambda>c. votes c = k) (candidates r))
                = map name_and_votes (filter (\<lambda>c. votes c = k) cs)))"
proof (intro conjI impI allI)
  assume "vote_set cs \<and> divides_small_quotients fl"
  then show "\<exists>r. format_table_results fl cs = Inr r"
    using format_table_results_returns by blast
next
  assume "format_table_results fl cs = Inr r"
  from format_table_results_Inr(2) [OF this] obtain formatted
    where nv: "map name_and_votes formatted = map name_and_votes cs"
      and r: "candidates r = sort_reverse votes formatted" by blast
  from r show d: "descending_by_votes (candidates r)"
    by (simp add: sort_reverse_descending)
  show "votes (candidates r ! Suc i) \<le> votes (candidates r ! i)" if "Suc i < length (candidates r)" for i
    using d that by (rule descending_adjacent)
  show "map name_and_votes (filter (\<lambda>c. votes c = k) (candidates r))
          = map name_and_votes (filter (\<lambda>c. votes c = k) cs)" for k
    using nv r by (simp add: sort_reverse_stable filter_votes_map)
qed

theorem format_table_results_descending_stable_witness:
  "vote_set [\<lparr>name = ''CANDIDATE A'', votes = 150\<rparr>, \<lparr>name = ''CANDIDATE B'', votes = 200\<rparr>,
             \<lparr>name = ''CANDIDATE C'', votes = 150\<rparr>]
   \<and> divides_small_quotients sample_floats
   \<and> format_table_results sample_floats
        [\<lparr>name = ''CANDIDATE A'', votes = 150\<rparr>, \<lparr>name = ''CANDIDATE B'', votes = 200\<rparr>,
         \<lparr>name = ''CANDIDATE C'', votes = 150\<rparr>]
      = Inr \<lparr>total_votes = 500,
             candidates = [\<lparr>name = ''CANDIDATE B'', votes = 200, percentage = FloatNum 40\<rparr>,
                           \<lparr>name = ''CANDIDATE A'', votes = 150, percentage = FloatNum 30\<rparr>,
                           \<lparr>name = ''CANDIDATE C'', votes = 150, percentage = FloatNum 30\<rparr>]\<rparr>
   \<and> descending_by_votes
        [\<lparr>name = ''CANDIDATE B'', votes = 200, percentage = FloatNum (40::int)\<rparr>,
         \<lparr>name = ''CANDIDATE A'', votes = 150, percentage = FloatNum 30\<rparr>,
         \<lparr>name = ''CANDIDATE C'', votes = 150, percentage = FloatNum 30\<rparr>]"
  using format_table_results_descending_stable [of
      "[\<lparr>name = ''CANDIDATE A'', votes = 150\<rparr>, \<lparr>name = ''CANDIDATE B'', votes = 200\<rparr>,
        \<lparr>name = ''CANDIDATE C'', votes = 150\<rparr>]"
      sample_floats
      "\<lparr>total_votes = 500,
             candidates = [\<lparr>name = ''CANDIDATE B'', votes = 200, percentage = FloatNum 40\<rparr>,
                           \<lparr>name = ''CANDIDATE A'', votes = 150, percentage = FloatNum 30\<rparr>,
                           \<lparr>name = ''CANDIDATE C'', votes = 150, percentage = FloatNum 30\<rparr>]\<rparr>"]
  by (simp add: format_eval_defs)

section \<open>The comparison\<close>

lemma map_of_dict_set: "map_of (dict_set d k v) = (map_of d)(k \<mapsto> v)"
  by (induction d k v rule: dict_set.induct) auto

lemma dict_keys_dict_set: "set (dict_keys (dict_set d k v)) = insert k (set (dict_keys d))"
  by (induction d k v rule: dict_set.induct) (auto simp: dict_keys_def)

lemma distinct_dict_set: "distinct (dict_keys d) \<Longrightarrow> distinct (dict_keys (dict_set d k v))"
proof (induction d k v rule: dict_set.induct)
  case (1 k v)
  then show ?case by (simp add: dict_keys_def)
next
  case (2 k' v' d k v)
  have "set (map fst (dict_set d k v)) = insert k (set (map fst d))"
    using dict_keys_dict_set [of d k v] by (simp add: dict_keys_def)
  with 2 show ?case by (auto simp: dict_keys_def)
qed

lemma dict_fold_keys:
  "set (dict_keys (foldl (\<lambda>d r. dict_set d (name r) (votes r)) d0 vs))
     = set (dict_keys d0) \<union> name ` set vs"
  by (induction vs arbitrary: d0) (auto simp: dict_keys_dict_set)

lemma dict_fold_distinct:
  "distinct (dict_keys d0) \<Longrightarrow>
     distinct (dict_keys (foldl (\<lambda>d r. dict_set d (name r) (votes r)) d0 vs))"
  by (induction vs arbitrary: d0) (simp_all add: distinct_dict_set)

lemma dict_of_votes_keys: "set (dict_keys (dict_of_votes vs)) = name ` set vs"
  using dict_fold_keys [of "[]" vs] by (simp add: dict_of_votes_def dict_keys_def)

lemma dict_of_votes_distinct: "distinct (dict_keys (dict_of_votes vs))"
  using dict_fold_distinct [of "[]" vs] by (simp add: dict_of_votes_def dict_keys_def)

lemma dict_keys_dom: "set (dict_keys d) = dom (map_of d)"
  by (simp add: dict_keys_def dom_map_of_conv_image_fst)

lemma ocr_pass_eq:
  "ocr_pass text_dict items st
     = \<lparr>all_match = (all_match st \<and> ocr_only_differences text_dict items = []),
        differences = differences st @ ocr_only_differences text_dict items\<rparr>"
proof (induction items arbitrary: st)
  case Nil
  then show ?case by (simp add: ocr_only_differences_def)
next
  case (Cons item items)
  obtain n v where item: "item = (n, v)" by (cases item)
  show ?case
    by (simp add: item Cons.IH ocr_only_differences_def record_difference_def)
qed

lemma registry_pass_agree:
  "(\<And>n. n \<in> set ns \<Longrightarrow> map_of text_dict n \<noteq> None \<and> map_of ocr_dict n = map_of text_dict n)
     \<Longrightarrow> registry_pass text_dict ocr_dict ns st = st"
proof (induction ns arbitrary: st)
  case Nil
  show ?case by simp
next
  case (Cons n ns)
  from Cons.prems [of n] obtain y
    where "map_of text_dict n = Some y" and "map_of ocr_dict n = Some y"
    by auto
  then have "registry_pass text_dict ocr_dict (n # ns) st = registry_pass text_dict ocr_dict ns st"
    by (simp add: Let_def)
  also have "\<dots> = st"
    by (rule Cons.IH) (simp add: Cons.prems)
  finally show ?case .
qed

lemma ocr_only_differences_names:
  "map dname (ocr_only_differences text_dict ocr_dict)
     = filter (\<lambda>n. n \<notin> set (dict_keys text_dict)) (dict_keys ocr_dict)"
proof (induction ocr_dict)
  case Nil
  show ?case by (simp add: ocr_only_differences_def dict_keys_def)
next
  case (Cons item ocr_dict)
  obtain n v where item: "item = (n, v)" by (cases item)
  from Cons.IH show ?case
    by (simp add: item ocr_only_differences_def dict_keys_def)
qed

lemmas compare_eval_defs =
  compare_vote_results_def dict_of_votes_def dict_keys_def record_difference_def
  ocr_only_differences_def sample_names_def

text \<open>
  Claim C1, as stated, fails: two VoteSets built from the same counts that both lack a
  name of the registry do not match. With the registry of the sample and the single
  record of CANDIDATE A on both sides, the loop over the registry records CANDIDATE B
  as absent on both sides.
\<close>

theorem compare_same_counts_counterexample:
  "compare_vote_results sample_names
     [\<lparr>name = ''CANDIDATE A'', votes = 150\<rparr>] [\<lparr>name = ''CANDIDATE A'', votes = 150\<rparr>]
   = \<lparr>all_match = False,
      differences = [\<lparr>dname = ''CANDIDATE B'', text_votes = None, ocr_votes = None\<rparr>]\<rparr>"
  by (simp add: compare_eval_defs)

text \<open>
  Claim C1, amended. For all VoteSets A and B that give the same mapping from names to
  votes and in which every name of the registry occurs, \<open>compare_vote_results\<close> returns
  the report with \<open>all_match\<close> true and no differences.
\<close>

theorem compare_same_complete_counts_match:
  assumes same: "map_of (dict_of_votes a) = map_of (dict_of_votes b)"
    and complete: "set cn \<subseteq> name ` set a"
  shows "compare_vote_results cn a b = \<lparr>all_match = True, differences = []\<rparr>"
proof -
  let ?t = "dict_of_votes a" and ?o = "dict_of_votes b"
  have keys: "set (dict_keys ?o) = set (dict_keys ?t)"
    using same by (simp add: dict_keys_dom)
  have "map_of ?t n \<noteq> None \<and> map_of ?o n = map_of ?t n" if "n \<in> set cn" for n
  proof -
    from that complete have "n \<in> set (dict_keys ?t)"
      by (auto simp: dict_of_votes_keys)
    then have "map_of ?t n \<noteq> None"
      by (auto simp: dict_keys_dom)
    with same show ?thesis by simp
  qed
  then have first: "registry_pass ?t ?o cn \<lparr>all_match = True, differences = []\<rparr>
      = \<lparr>all_match = True, differences = []\<rparr>"
    by (rule registry_pass_agree)
  have "filter (\<lambda>n. n \<notin> set (dict_keys ?t)) (dict_keys ?o) = []"
    using keys by (simp add: filter_empty_conv)
  then have "map dname (ocr_only_differences ?t ?o) = []"
    by (simp add: ocr_only_differences_names)
  then have second: "ocr_only_differences ?t ?o = []" by simp
  show ?thesis
    by (simp add: compare_vote_results_def Let_def first ocr_pass_eq second)
qed

theorem compare_same_complete_counts_match_witness:
  "map_of (dict_of_votes [\<lparr>name = ''CANDIDATE A'', votes = 150\<rparr>, \<lparr>name = ''CANDIDATE B'', votes = 200\<rparr>])
     = map_of (dict_of_votes [\<lparr>name = ''CANDIDATE B'', votes = 200\<rparr>, \<lparr>name = ''CANDIDATE A'', votes = 150\<rparr>])
   \<and> set sample_names
       \<subseteq> name ` set [\<lparr>name = ''CANDIDATE A'', votes = 150\<rparr>, \<lparr>name = ''CANDIDATE B'', votes = 200\<rparr>]
   \<and> compare_vote_results sample_names
        [\<lparr>name = ''CANDIDATE A'', votes = 150\<rparr>, \<lparr>name = ''CANDIDATE B'', votes = 200\<rparr>]
        [\<lparr>name = ''CANDIDATE B'', votes = 200\<rparr>, \<lparr>name = ''CANDIDATE A'', votes = 150\<rparr>]
      = \<lparr>all_match = True, differences = []\<rparr>"
proof -
  have same: "map_of (dict_of_votes [\<lparr>name = ''CANDIDATE A'', votes = 150\<rparr>, \<lparr>name = ''CANDIDATE B'', votes = 200\<rparr>])
     = map_of (dict_of_votes [\<lparr>name = ''CANDIDATE B'', votes = 200\<rparr>, \<lparr>name = ''CANDIDATE A'', votes = 150\<rparr>])"
    by (auto simp: dict_of_votes_def fun_eq_iff)
  have complete: "set sample_names
       \<subseteq> name ` set [\<lparr>name = ''CANDIDATE A'', votes = 150\<rparr>, \<lparr>name = ''CANDIDATE B'', votes = 200\<rparr>]"
    by (simp add: sample_names_def)
  from same complete compare_same_complete_counts_match [OF same complete]
  show ?thesis by blast
qed

text \<open>
  Claim C3, as stated, fails: the loop over the OCR mapping does not consult the
  registry. For a name of the registry that only the OCR side has, the loop over the
  registry records a difference and the second loop records the same difference again.
\<close>

theorem second_pass_repeats_registry_name_counterexample:
  "''CANDIDATE A'' \<in> set sample_names
   \<and> registry_pass [] [(''CANDIDATE A'', 5)] sample_names \<lparr>all_match = True, differences = []\<rparr>
      = \<lparr>all_match = False,
         differences = [\<lparr>dname = ''CANDIDATE A'', text_votes = None, ocr_votes = Some 5\<rparr>,
                        \<lparr>dname = ''CANDIDATE B'', text_votes = None, ocr_votes = None\<rparr>]\<rparr>
   \<and> compare_vote_results sample_names [] [\<lparr>name = ''CANDIDATE A'', votes = 5\<rparr>]
      = \<lparr>all_match = False,
         differences = [\<lparr>dname = ''CANDIDATE A'', text_votes = None, ocr_votes = Some 5\<rparr>,
                        \<lparr>dname = ''CANDIDATE B'', text_votes = None, ocr_votes = None\<rparr>,
                        \<lparr>dname = ''CANDIDATE A'', text_votes = None, ocr_votes = Some 5\<rparr>]\<rparr>"
  by (simp add: compare_eval_defs)

text \<open>
  Claim C3, amended. For every pair of VoteSets, the differences of the report are those
  of the loop over the registry followed by one entry, with \<open>text_votes\<close> absent and the
  OCR value, for each name of the OCR mapping that is not a key of the table mapping, in
  the order of the OCR mapping, whether or not the name is in the registry. The keys of
  the table mapping are the names of the table VoteSet, and the keys of the OCR mapping
  are distinct, so the second loop records a name at most once.
\<close>

theorem second_pass_records_names_absent_from_table:
  "differences (compare_vote_results cn a b)
     = differences (registry_pass (dict_of_votes a) (dict_of_votes b) cn
                      \<lparr>all_match = True, differences = []\<rparr>)
       @ map (\<lambda>(n, v). \<lparr>dname = n, text_votes = None, ocr_votes = Some v\<rparr>)
           (filter (\<lambda>(n, v). n \<notin> set (dict_keys (dict_of_votes a))) (dict_of_votes b))
   \<and> set (dict_keys (dict_of_votes a)) = name ` set a
   \<and> distinct (dict_keys (dict_of_votes b))"
  by (simp add: compare_vote_results_def Let_def ocr_pass_eq ocr_only_differences_def
      dict_of_votes_keys dict_of_votes_distinct)

theorem second_pass_records_names_absent_from_table_witness:
  "differences (compare_vote_results sample_names
       [\<lparr>name = ''CANDIDATE B'', votes = 200\<rparr>]
       [\<lparr>name = ''CANDIDATE A'', votes = 5\<rparr>, \<lparr>name = ''CANDIDATE B'', votes = 200\<rparr>,
        \<lparr>name = ''SOMEONE ELSE'', votes = 7\<rparr>])
   = [\<lparr>dname = ''CANDIDATE A'', text_votes = None, ocr_votes = Some 5\<rparr>]
     @ [\<lparr>dname = ''CANDIDATE A'', text_votes = None, ocr_votes = Some 5\<rparr>,
        \<lparr>dname = ''SOMEONE ELSE'', text_votes = None, ocr_votes = Some 7\<rparr>]"
  using second_pass_records_names_absent_from_table [of sample_names
      "[\<lparr>name = ''CANDIDATE B'', votes = 200\<rparr>]"
      "[\<lparr>name = ''CANDIDATE A'', votes = 5\<rparr>, \<lparr>name = ''CANDIDATE B'', votes = 200\<rparr>,
        \<lparr>name = ''SOMEONE ELSE'', votes = 7\<rparr>]"]
  by (simp add: compare_eval_defs)

section \<open>The input errors of the extraction\<close>

lemma length_digits_of_mono: "a \<le> b \<Longrightarrow> length (digits_of a) \<le> length (digits_of b)"
proof (induction b arbitrary: a rule: digits_of.induct)
  case (1 b)
  show ?case
  proof (cases "b < 10")
    case True
    with "1.prems" have "a < 10" by simp
    with True show ?thesis by (simp add: digits_of.simps [of a] digits_of.simps [of b])
  next
    case False
    show ?thesis
    proof (cases "a < 10")
      case True
      with False show ?thesis by (simp add: digits_of.simps [of a] digits_of.simps [of b])
    next
      case a: False
      from "1.prems" have "a div 10 \<le> b div 10" by (rule div_le_mono)
      with False have "length (digits_of (a div 10)) \<le> length (digits_of (b div 10))"
        by (intro "1.IH") simp_all
      with a False show ?thesis by (simp add: digits_of.simps [of a] digits_of.simps [of b])
    qed
  qed
qed

lemma py_str_within_limit:
  "0 \<le> i \<Longrightarrow> lim = 0 \<or> length (digits_of (nat i)) \<le> lim \<Longrightarrow> py_str lim i = Inr (digits_of (nat i))"
  by (auto simp: py_str_def Let_def)

lemma page_range_message_within_limit:
  assumes "int n < page_no" and "lim = 0 \<or> length (digits_of (nat page_no)) \<le> lim"
  shows "page_range_message lim n page_no
    = Inr (''PDF only has '' @ digits_of n @ '' pages, requested page '' @ digits_of (nat page_no))"
proof -
  from assms(1) have "n \<le> nat page_no" by simp
  then have "length (digits_of n) \<le> length (digits_of (nat page_no))"
    by (rule length_digits_of_mono)
  with assms(2) have "lim = 0 \<or> length (digits_of (nat (int n))) \<le> lim" by auto
  then have count: "py_str lim (int n) = Inr (digits_of n)"
    using py_str_within_limit [of "int n" lim] by simp
  from assms have "py_str lim page_no = Inr (digits_of (nat page_no))"
    by (intro py_str_within_limit) simp_all
  with count show ?thesis by (simp add: page_range_message_def)
qed

lemma extract_missing_file_raises:
  "\<not> path_exists env disk p \<Longrightarrow> isl (extract_pdf_content env disk p g n)"
  by (simp add: extract_pdf_content_def split: sum.splits)

lemma extract_page_beyond_count_raises:
  "pdf_pages env disk p = Inr pages \<Longrightarrow> int (length pages) < n \<Longrightarrow>
     isl (extract_pdf_content env disk p g n)"
  by (simp add: extract_pdf_content_def split: sum.splits)

text \<open>
  Claim C9. For every path and page number, \<open>extract_pdf_content\<close> raises when the file
  does not exist, and raises when the document opens and the page number exceeds its
  page count. When the check of \<^verbatim>\<open>pdftoppm\<close> passes, the exception for a missing file is
  \<^verbatim>\<open>FileNotFoundError\<close> with the message naming the path, and the one for a page beyond the
  count is \<^verbatim>\<open>ValueError\<close> with the message giving the page count and the page requested
  (the page number within the interpreter's digit limit). When \<^verbatim>\<open>pdftoppm\<close> cannot be
  run, the exception raised is that of the check, \<^verbatim>\<open>SystemExit(1)\<close> when the tool is not
  found.
\<close>

theorem extract_pdf_content_input_errors:
  "(\<not> path_exists env disk p \<longrightarrow> isl (extract_pdf_content env disk p g n))
   \<and> (run_pdftoppm env = None \<and> \<not> path_exists env disk p \<longrightarrow>
        extract_pdf_content env disk p g n = Inl (FileNotFoundError (''PDF file not found: '' @ p)))
   \<and> (pdf_pages env disk p = Inr pages \<and> int (length pages) < n \<longrightarrow>
        isl (extract_pdf_content env disk p g n))
   \<and> (run_pdftoppm env = None \<and> path_exists env disk p \<and> pdf_pages env disk p = Inr pages
        \<and> int (length pages) < n
        \<and> (max_str_digits env = 0 \<or> length (digits_of (nat n)) \<le> max_str_digits env) \<longrightarrow>
        extract_pdf_content env disk p g n
          = Inl (ValueError (''PDF only has '' @ digits_of (length pages)
                   @ '' pages, requested page '' @ digits_of (nat n))))"
proof (intro conjI impI)
  assume "\<not> path_exists env disk p"
  then show "isl (extract_pdf_content env disk p g n)"
    by (rule extract_missing_file_raises)
next
  assume "run_pdftoppm env = None \<and> \<not> path_exists env disk p"
  then show "extract_pdf_content env disk p g n = Inl (FileNotFoundError (''PDF file not found: '' @ p))"
    by (simp add: extract_pdf_content_def check_poppler_installation_def)
next
  assume "pdf_pages env disk p = Inr pages \<and> int (length pages) < n"
  then have "pdf_pages env disk p = Inr pages" and "int (length pages) < n"
    by simp_all
  then show "isl (extract_pdf_content env disk p g n)"
    by (rule extract_page_beyond_count_raises)
next
  assume h: "run_pdftoppm env = None \<and> path_exists env disk p \<and> pdf_pages env disk p = Inr pages
        \<and> int (length pages) < n
        \<and> (max_str_digits env = 0 \<or> length (digits_of (nat n)) \<le> max_str_digits env)"
  then have "page_range_message (max_str_digits env) (length pages) n
      = Inr (''PDF only has '' @ digits_of (length pages)
               @ '' pages, requested page '' @ digits_of (nat n))"
    by (intro page_range_message_within_limit) simp_all
  with h show "extract_pdf_content env disk p g n
          = Inl (ValueError (''PDF only has '' @ digits_of (length pages)
                   @ '' pages, requested page '' @ digits_of (nat n)))"
    by (simp add: extract_pdf_content_def check_poppler_installation_def)
qed

lemma digits_of_2: "digits_of (Suc (Suc 0)) = ''2''" and digits_of_3: "digits_of 3 = ''3''"
  by code_simp+

theorem extract_pdf_content_input_errors_witness:
  "\<not> path_exists sample_env [] ''missing.pdf''
   \<and> run_pdftoppm sample_env = None
   \<and> extract_pdf_content sample_env [] ''missing.pdf'' False 2
       = Inl (FileNotFoundError ''PDF file not found: missing.pdf'')
   \<and> path_exists sample_env [(''a.pdf'', ''%PDF'')] ''a.pdf''
   \<and> pdf_pages sample_env [(''a.pdf'', ''%PDF'')] ''a.pdf'' = Inr sample_pages
   \<and> int (length sample_pages) < 3
   \<and> extract_pdf_content sample_env [(''a.pdf'', ''%PDF'')] ''a.pdf'' False 3
       = Inl (ValueError ''PDF only has 2 pages, requested page 3'')"
  using extract_pdf_content_input_errors [where env = sample_env and disk = "[]"
      and p = "''missing.pdf''" and g = False and n = 2 and pages = sample_pages]
    extract_pdf_content_input_errors [where env = sample_env and disk = "[(''a.pdf'', ''%PDF'')]"
      and p = "''a.pdf''" and g = False and n = 3 and pages = sample_pages]
  by (simp add: sample_env_def sample_pages_def digits_of_2 digits_of_3)

section \<open>What a processed item leaves in the registry\<close>

text \<open>
  An item whose file name is in the registry is skipped: no request, no extraction, the
  registry unchanged. An item that is downloaded and extracted leaves the response object
  in the registry; an item whose file is on disk already leaves the file name.
\<close>

lemma process_file_skips_registered:
  assumes "makedirs env (fs w) ''data'' = Inr d1"
    and "makedirs env d1 ''data/pdfs'' = Inr d2"
    and "Filename (last_segment (base_url @ format_optional (url f0))) \<in> processed_files w"
  shows "process_file env (ident, f0 # rest) w = (None, w\<lparr>fs := d2\<rparr>)"
  using assms by (simp add: process_file_def Let_def)

lemma process_file_after_download:
  assumes "makedirs env (fs w) ''data'' = Inr d1"
    and "makedirs env d1 ''data/pdfs'' = Inr d2"
    and "pdf_url = base_url @ format_optional (url f0)"
    and "saved = ''data/pdfs/'' @ last_segment pdf_url"
    and "Filename (last_segment pdf_url) \<notin> processed_files w"
    and "\<not> path_exists env d2 saved"
    and "http_get env (length (requests_made w)) pdf_url = Inr content"
    and "write_bytes env d2 saved content = Inr d3"
    and "extract_pdf_content env d3 saved False 2 = Inr c"
    and "all_match (vote_comparison (fst c))"
  shows "process_file env (ident, f0 # rest) w
    = (None, \<lparr>fs = d3,
              processed_files = insert (Response (length (requests_made w)) content) (processed_files w),
              requests_made = requests_made w @ [pdf_url]\<rparr>)"
  using assms
  by (simp add: process_file_def download_if_missing_def extract_and_mark_def Let_def)

lemma process_file_file_on_disk:
  assumes "makedirs env (fs w) ''data'' = Inr d1"
    and "makedirs env d1 ''data/pdfs'' = Inr d2"
    and "pdf_url = base_url @ format_optional (url f0)"
    and "saved = ''data/pdfs/'' @ last_segment pdf_url"
    and "Filename (last_segment pdf_url) \<notin> processed_files w"
    and "path_exists env d2 saved"
    and "extract_pdf_content env d2 saved False 2 = Inr c"
    and "all_match (vote_comparison (fst c))"
  shows "process_file env (ident, f0 # rest) w
    = (None, \<lparr>fs = d2,
              processed_files = insert (Filename (last_segment pdf_url)) (processed_files w),
              requests_made = requests_made w\<rparr>)"
  using assms
  by (simp add: process_file_def download_if_missing_def extract_and_mark_def Let_def)

text \<open>
  Claim C2. On the sample run the item is eligible, its file is neither in the registry
  nor on disk, the download and the extraction succeed and the two parses disagree. The
  first call returns without raising, writes the problems entry and adds the response
  object, not the file name \<^verbatim>\<open>a.pdf\<close>, to the registry. A second call for the same item is
  therefore not skipped: it sends no request, since the file is on disk, but it extracts
  again and writes the problems entry a second time; only then is the file name in the
  registry.
\<close>

theorem process_file_registers_response_object:
  "process_file sample_env sample_item sample_world
     = (None,
        \<lparr>fs = [(''data/problems/7.json'', ''json''), (''data/pdfs/a.pdf'', ''%PDF'')],
         processed_files = {Response 0 ''%PDF''},
         requests_made = [''https://prezenta.roaep.ro/prezidentiale24112024/data/pv/a.pdf'']\<rparr>)
   \<and> Filename ''a.pdf'' \<notin> {Response 0 ''%PDF''}
   \<and> process_file sample_env sample_item
        \<lparr>fs = [(''data/problems/7.json'', ''json''), (''data/pdfs/a.pdf'', ''%PDF'')],
         processed_files = {Response 0 ''%PDF''},
         requests_made = [''https://prezenta.roaep.ro/prezidentiale24112024/data/pv/a.pdf'']\<rparr>
     = (None,
        \<lparr>fs = [(''data/problems/7.json'', ''json''), (''data/problems/7.json'', ''json''),
               (''data/pdfs/a.pdf'', ''%PDF'')],
         processed_files = {Filename ''a.pdf'', Response 0 ''%PDF''},
         requests_made = [''https://prezenta.roaep.ro/prezidentiale24112024/data/pv/a.pdf'']\<rparr>)"
  by code_simp

end
